theory Spec2Isabelle
  imports Complex_Main
begin

section \<open>Data model\<close>

text \<open>
  Timestamps are seconds on the integer line (datetime64 with unit s); a \<open>datetime64\<close>
  cell is either a timestamp or the missing sentinel NaT (\<open>None\<close>). The values of the
  dataset fields are modelled as reals; no arithmetic is done on them here. A cell of a result matrix is a number, NaN, or the arbitrary content
  that \<open>np.empty\<close> leaves behind (\<open>Uninit\<close>).
\<close>

type_synonym time = int

type_synonym datetime64 = "time option"

datatype error = OpenError | IndexError | KeyError | ValueError | TypeError | OverflowError

datatype cell = Val real | NaN | Uninit

text \<open>
  A two-dimensional numpy array: its column count and its rows. Every array built below
  keeps the invariant that each row has \<open>ncols\<close> entries; \<open>len\<close> is the row count.
\<close>

datatype 'a ndarray = NdArray (ncols: nat) (rows: "'a list list")

definition nrows :: "'a ndarray \<Rightarrow> nat" where
  "nrows a = length (rows a)"

definition wf_array :: "'a ndarray \<Rightarrow> bool" where
  "wf_array a = list_all (\<lambda>r. length r = ncols a) (rows a)"

text \<open>
  The \<open>datetime\<close> argument of \<open>extract_dataset\<close>: the Python empty list \<open>[]\<close>
  (no timestamps requested at all) or a 2-D array [time, station] of datetime64.
  The test \<open>datetime == []\<close> is true for the empty list only.
\<close>

datatype time_request = PyList_empty | TimeArray "datetime64 ndarray"

text \<open>
  The gridded dataset backend (xarray) is an external collaborator. A dataset file is
  modelled by its native time axis, the names of its fields and the two value primitives
  of the backend, with nearest-neighbour spatial selection folded in:
  \<open>ds_value v t lat lon\<close> is field \<open>v\<close> at native time \<open>t\<close> in the grid cell nearest to
  (lat, lon); \<open>ds_interp v t lat lon\<close> is the field interpolated in time onto an arbitrary
  timestamp \<open>t\<close>.
\<close>

record dataset =
  ds_time :: "time list"
  ds_names :: "string list"
  ds_value :: "string \<Rightarrow> time \<Rightarrow> real \<Rightarrow> real \<Rightarrow> cell"
  ds_interp :: "string \<Rightarrow> time \<Rightarrow> real \<Rightarrow> real \<Rightarrow> cell"

text \<open>The dataset after the temporal step (\<open>dataset_interpolation\<close>): a time axis and values on it.\<close>

record selection =
  sel_time :: "time list"
  sel_value :: "string \<Rightarrow> time \<Rightarrow> real \<Rightarrow> real \<Rightarrow> cell"

record filesystem =
  fs_open :: "string \<rightharpoonup> dataset"

text \<open>
  What \<open>extract_dataset\<close> returns: a list of per-variable matrices, or a sentinel integer.
\<close>

datatype retval = Matrices "cell ndarray list" | Sentinel int

section \<open>Library primitives\<close>

text \<open>A Python \<open>for\<close> loop over a sequence, threading the mutated state; an exception leaves the loop.\<close>

fun for_loop :: "'i list \<Rightarrow> ('i \<Rightarrow> 's \<Rightarrow> error + 's) \<Rightarrow> 's \<Rightarrow> error + 's" where
  "for_loop [] body s = Inr s"
| "for_loop (i # is) body s = (case body i s of Inl e \<Rightarrow> Inl e | Inr s' \<Rightarrow> for_loop is body s')"

text \<open>\<open>np.unique(xs, return_inverse=True)\<close>: the sorted distinct values, and for every
  position of \<open>xs\<close> the index of its value among them.\<close>

fun index_of :: "'a list \<Rightarrow> 'a \<Rightarrow> nat" where
  "index_of [] x = 0"
| "index_of (y # ys) x = (if x = y then 0 else Suc (index_of ys x))"

definition np_unique :: "('a::linorder) list \<Rightarrow> 'a list \<times> nat list" where
  "np_unique xs = (let u = sort (remdups xs) in (u, map (index_of u) xs))"

text \<open>\<open>a[~np.isnat(a)]\<close> on a sequence: the entries that are not NaT, in order.\<close>

fun valid_times :: "datetime64 list \<Rightarrow> time list" where
  "valid_times [] = []"
| "valid_times (None # ds) = valid_times ds"
| "valid_times (Some t # ds) = t # valid_times ds"

text \<open>\<open>a[:, j]\<close>\<close>

definition column :: "'a ndarray \<Rightarrow> nat \<Rightarrow> error + 'a list" where
  "column a j = (if j < ncols a then Inr (map (\<lambda>r. r ! j) (rows a)) else Inl IndexError)"

text \<open>\<open>np.empty([m, n])\<close>\<close>

definition np_empty :: "nat \<Rightarrow> nat \<Rightarrow> cell ndarray" where
  "np_empty m n = NdArray n (replicate m (replicate n Uninit))"

text \<open>\<open>a[:, j] = vals\<close>: the values fill the column when there is one per row, a single
  value is broadcast to every row, any other length does not broadcast.\<close>

definition assign_col :: "cell ndarray \<Rightarrow> nat \<Rightarrow> cell list \<Rightarrow> error + cell ndarray" where
  "assign_col a j vals =
     (if \<not> j < ncols a then Inl IndexError
      else if length vals = length (rows a)
        then Inr (NdArray (ncols a) (map (\<lambda>(r, v). r[j := v]) (zip (rows a) vals)))
      else if length vals = 1
        then Inr (NdArray (ncols a) (map (\<lambda>r. r[j := hd vals]) (rows a)))
      else Inl ValueError)"

text \<open>\<open>a[i, :] = vals\<close>\<close>

definition assign_row :: "cell ndarray \<Rightarrow> nat \<Rightarrow> cell list \<Rightarrow> error + cell ndarray" where
  "assign_row a i vals =
     (if \<not> i < length (rows a) then Inl IndexError
      else if length vals = ncols a
        then Inr (NdArray (ncols a) ((rows a)[i := vals]))
      else if length vals = 1
        then Inr (NdArray (ncols a) ((rows a)[i := replicate (ncols a) (hd vals)]))
      else Inl ValueError)"

text \<open>\<open>np.vstack((a, b))\<close>: the rows of \<open>a\<close> followed by those of \<open>b\<close>; the column counts must agree.\<close>

definition vstack :: "'a ndarray \<Rightarrow> 'a ndarray \<Rightarrow> error + 'a ndarray" where
  "vstack a b = (if ncols a = ncols b then Inr (NdArray (ncols a) (rows a @ rows b)) else Inl ValueError)"

text \<open>Exact-match selection \<open>.sel(time=ts)\<close> on a time axis: every label must be on the axis.\<close>

fun sel_times :: "time list \<Rightarrow> time list \<Rightarrow> error + time list" where
  "sel_times axis [] = Inr []"
| "sel_times axis (t # ts) =
     (if t \<in> set axis
      then (case sel_times axis ts of Inl e \<Rightarrow> Inl e | Inr ts' \<Rightarrow> Inr (t # ts'))
      else Inl KeyError)"

section \<open>Temporal Validator\<close>

text \<open>
  Python's \<open>datetime.datetime\<close> covers the years 1 to 9999: the seconds from
  0001-01-01T00:00:00 to 9999-12-31T23:59:59. Converting a datetime64 array to objects
  (what \<open>astype(datetime.datetime)\<close> and \<open>np.vectorize\<close> do) turns a timestamp in that
  range into a \<open>datetime.datetime\<close>, a timestamp outside it into a plain integer, and NaT
  into \<open>None\<close>.
\<close>

definition datetime_min :: time where
  "datetime_min = - 62135596800"

definition datetime_max :: time where
  "datetime_max = 253402300799"

datatype pyobject = PyDatetime time | PyInt int | PyNone

definition astype_object :: "datetime64 \<Rightarrow> pyobject" where
  "astype_object d =
     (case d of
        None \<Rightarrow> PyNone
      | Some t \<Rightarrow> if datetime_min \<le> t \<and> t \<le> datetime_max then PyDatetime t else PyInt t)"

text \<open>
  \<open>date_check\<close> (extract.py, lines 10-14); the bounds are \<open>datetime.datetime\<close> values.
  Comparing a \<open>datetime.datetime\<close> with \<open>None\<close> or with an integer is a type error.
\<close>

fun date_check :: "pyobject \<Rightarrow> time \<Rightarrow> time \<Rightarrow> error + datetime64" where
  "date_check (PyDatetime date) date_start date_end =
     Inr (if date_start \<le> date \<and> date \<le> date_end then Some date else None)"
| "date_check (PyInt date) date_start date_end = Inl TypeError"
| "date_check PyNone date_start date_end = Inl TypeError"

text \<open>A function applied to every element in order; the first exception ends it.\<close>

fun map_err :: "('a \<Rightarrow> error + 'b) \<Rightarrow> 'a list \<Rightarrow> error + 'b list" where
  "map_err f [] = Inr []"
| "map_err f (x # xs) =
     (case f x of
        Inl e \<Rightarrow> Inl e
      | Inr y \<Rightarrow> (case map_err f xs of Inl e \<Rightarrow> Inl e | Inr ys \<Rightarrow> Inr (y # ys)))"

text \<open>
  \<open>np.vectorize(date_check)(datearray, start, end)\<close>: the cells are handed to
  \<open>date_check\<close> as objects, one by one. \<open>np.vectorize\<close> refuses an input without cells
  (a value error), since it has no element to find the output type from.
\<close>

definition date_check_vec :: "datetime64 ndarray \<Rightarrow> time \<Rightarrow> time \<Rightarrow> error + datetime64 ndarray" where
  "date_check_vec datearray date_start date_end =
     (if concat (rows datearray) = [] then Inl ValueError
      else (case map_err (map_err (\<lambda>d. date_check (astype_object d) date_start date_end)) (rows datearray) of
              Inl e \<Rightarrow> Inl e
            | Inr checked \<Rightarrow> Inr (NdArray (ncols datearray) checked)))"

section \<open>Single-File Extractor\<close>

text \<open>
  Lines 43-49: open the file and select the requested variables. Any failure inside the
  \<open>try\<close> (file cannot be opened, a variable name is absent) is caught by the bare \<open>except\<close>.
  Selecting no variable succeeds; what the selection then lacks shows at line 60 (see
  \<open>temporal_step\<close>).
\<close>

definition open_sel :: "filesystem \<Rightarrow> string \<Rightarrow> string list \<Rightarrow> dataset option" where
  "open_sel fs dataset_path variables =
     (case fs_open fs dataset_path of
        None \<Rightarrow> None
      | Some ds \<Rightarrow> if list_all (\<lambda>v. v \<in> set (ds_names ds)) variables then Some ds else None)"

text \<open>Line 51: the sorted distinct valid timestamps of the whole matrix.\<close>

definition datetime_for_interp :: "datetime64 ndarray \<Rightarrow> time list" where
  "datetime_for_interp datetime = fst (np_unique (valid_times (concat (rows datetime))))"

text \<open>Lines 53-58: per station, the valid timestamps of its column.\<close>

definition datetime_for_station :: "datetime64 ndarray \<Rightarrow> nat \<Rightarrow> error + time list list" where
  "datetime_for_station datetime n =
     for_loop [0..<n]
       (\<lambda>index_station acc.
          case column datetime index_station of
            Inl e \<Rightarrow> Inl e
          | Inr datetime_temp \<Rightarrow> Inr (acc @ [valid_times datetime_temp]))
       []"

text \<open>
  Lines 60-72: the temporal step. \<open>Inl\<close> is an exception that leaves the function,
  \<open>Inr None\<close> the caught failure of the exact selection (the function then returns -2).
  The selection \<open>[variables]\<close> keeps the time coordinate only through a selected field:
  with no variable selected, \<open>dataset['time']\<close> at line 60 is a key error. Interpolating
  onto an empty set of timestamps is a value error of the backend; neither is caught.
\<close>

definition temporal_step :: "dataset \<Rightarrow> string list \<Rightarrow> bool \<Rightarrow> time list
    \<Rightarrow> error + selection option" where
  "temporal_step ds variables interpolate union_times =
     (if variables = [] then Inl KeyError
      else if length (ds_time ds) > 1 then
        (if interpolate then
           (if union_times = [] then Inl ValueError
            else Inr (Some \<lparr>sel_time = union_times, sel_value = ds_interp ds\<rparr>))
         else (case sel_times (ds_time ds) union_times of
                 Inl e \<Rightarrow> Inr None
               | Inr ts \<Rightarrow> Inr (Some \<lparr>sel_time = ts, sel_value = ds_value ds\<rparr>)))
      else Inr (Some \<lparr>sel_time = ds_time ds, sel_value = ds_value ds\<rparr>))"

text \<open>Lines 78-84: one station's column in interpolation mode.\<close>

definition fill_column :: "selection \<Rightarrow> string \<Rightarrow> real list \<Rightarrow> real list \<Rightarrow> time list list \<Rightarrow> nat
    \<Rightarrow> nat \<Rightarrow> cell ndarray \<Rightarrow> error + cell ndarray" where
  "fill_column dsi v lats lons dfs m index_station station_data =
     (if length (dfs ! index_station) = 0
        then assign_col station_data index_station (replicate m NaN)
      else if \<not> index_station < length lats then Inl IndexError
      else (case sel_times (sel_time dsi) (dfs ! index_station) of
              Inl e \<Rightarrow> Inl e
            | Inr ts \<Rightarrow>
                assign_col station_data index_station
                  (map (\<lambda>t. sel_value dsi v t (lats ! index_station) (lons ! index_station)) ts)))"

text \<open>Lines 88-90: one station's row in static mode; \<open>[:, 0]\<close> takes the value at the first time of the axis.\<close>

definition fill_row :: "selection \<Rightarrow> string \<Rightarrow> real list \<Rightarrow> real list \<Rightarrow> nat
    \<Rightarrow> cell ndarray \<Rightarrow> error + cell ndarray" where
  "fill_row dsi v lats lons index_station station_data =
     (if \<not> index_station < length lats then Inl IndexError
      else (case sel_time dsi of
              [] \<Rightarrow> Inl IndexError
            | t # _ \<Rightarrow>
                assign_row station_data index_station
                  [sel_value dsi v t (lats ! index_station) (lons ! index_station)]))"

text \<open>Lines 76-91: the matrix of one variable.\<close>

definition station_data_of :: "selection \<Rightarrow> bool \<Rightarrow> real list \<Rightarrow> real list \<Rightarrow> real list
    \<Rightarrow> time list list \<Rightarrow> nat \<Rightarrow> string \<Rightarrow> error + cell ndarray" where
  "station_data_of dsi interpolate lats lons lons_unique dfs m v =
     (if interpolate
        then for_loop [0..<length lons] (fill_column dsi v lats lons dfs m) (np_empty m (length lats))
      else for_loop [0..<length lons] (fill_row dsi v lats lons) (np_empty (length lons_unique) 1))"

text \<open>Lines 51-93: the extraction from the opened and variable-restricted dataset.\<close>

definition extract_opened :: "dataset \<Rightarrow> real list \<Rightarrow> real list \<Rightarrow> real list \<Rightarrow> string list
    \<Rightarrow> datetime64 ndarray \<Rightarrow> bool \<Rightarrow> error + retval" where
  "extract_opened ds lats lons lons_unique variables datetime interpolate =
     (case datetime_for_station datetime (length lons) of
        Inl e \<Rightarrow> Inl e
      | Inr dfs \<Rightarrow>
          (case temporal_step ds variables interpolate (datetime_for_interp datetime) of
             Inl e \<Rightarrow> Inl e
           | Inr None \<Rightarrow> Inr (Sentinel (- 2))
           | Inr (Some dsi) \<Rightarrow>
               (case for_loop variables
                       (\<lambda>index_variables var.
                          case station_data_of dsi interpolate lats lons lons_unique dfs
                                 (nrows datetime) index_variables of
                            Inl e \<Rightarrow> Inl e
                          | Inr station_data \<Rightarrow> Inr (var @ [station_data]))
                       [] of
                  Inl e \<Rightarrow> Inl e
                | Inr var \<Rightarrow> Inr (Matrices var))))"

text \<open>
  \<open>extract_dataset\<close> (lines 17-93). The result pairs the list of dataset files the call
  has opened with its outcome: an exception (\<open>Inl\<close>) or the returned value.
\<close>

definition extract_dataset :: "filesystem \<Rightarrow> real list \<Rightarrow> real list \<Rightarrow> string \<Rightarrow> string list
    \<Rightarrow> time_request \<Rightarrow> bool \<Rightarrow> string list \<times> (error + retval)" where
  "extract_dataset fs lats lons dataset_path variables datetime interpolate =
     (let (lons_unique, lons_index) = np_unique lons;
          (lats_unique, lats_index) = np_unique lats
      in case datetime of
           PyList_empty \<Rightarrow> ([], Inr (Matrices []))
         | TimeArray arr \<Rightarrow>
             (case open_sel fs dataset_path variables of
                None \<Rightarrow> ([dataset_path], Inr (Sentinel (- 1)))
              | Some ds \<Rightarrow>
                  ([dataset_path],
                   extract_opened ds lats lons lons_unique variables arr interpolate)))"

section \<open>Multi-File Stitcher\<close>

definition halfhour :: int where
  "halfhour = 30 * 60"

text \<open>
  \<open>datetime.datetime\<close> plus a \<open>timedelta\<close> of \<open>delta\<close> seconds: an overflow error when the
  result leaves the range of \<open>datetime.datetime\<close>, a type error when the left operand is
  an integer or \<open>None\<close>.
\<close>

fun add_timedelta :: "pyobject \<Rightarrow> int \<Rightarrow> error + time" where
  "add_timedelta (PyDatetime t) delta =
     (if datetime_min \<le> t + delta \<and> t + delta \<le> datetime_max then Inr (t + delta) else Inl OverflowError)"
| "add_timedelta (PyInt t) delta = Inl TypeError"
| "add_timedelta PyNone delta = Inl TypeError"

text \<open>
  Lines 125-132: the coverage window of a file, widened by half an hour on each side, from
  the first and the last entry of its time axis converted to \<open>datetime.datetime\<close>.
\<close>

definition window :: "time list \<Rightarrow> error + time \<times> time" where
  "window dataset_time =
     (case dataset_time of
        [] \<Rightarrow> Inl IndexError
      | dataset_starttime # _ \<Rightarrow>
          (let dataset_endtime = last dataset_time
           in case add_timedelta (astype_object (Some dataset_starttime)) (- halfhour) of
                Inl e \<Rightarrow> Inl e
              | Inr date_start \<Rightarrow>
                  (case add_timedelta (astype_object (Some dataset_endtime)) halfhour of
                     Inl e \<Rightarrow> Inl e
                   | Inr date_end \<Rightarrow> Inr (date_start, date_end))))"

text \<open>
  Lines 124-135: the body of the loop over the dataset files, for one file. The file is
  opened once here (an uncaught failure when it cannot be opened) and once more inside
  \<open>extract_dataset\<close>. The result pairs the files opened with the outcome.
\<close>

definition extract_file :: "filesystem \<Rightarrow> real list \<Rightarrow> real list \<Rightarrow> string list \<Rightarrow> datetime64 ndarray
    \<Rightarrow> bool \<Rightarrow> string \<Rightarrow> string list \<times> (error + retval)" where
  "extract_file fs lats lons variables datearray interpolate dataset_path =
     (case fs_open fs dataset_path of
        None \<Rightarrow> ([dataset_path], Inl OpenError)
      | Some dataset \<Rightarrow>
          (case window (ds_time dataset) of
             Inl e \<Rightarrow> ([dataset_path], Inl e)
           | Inr (date_start, date_end) \<Rightarrow>
               (case date_check_vec datearray date_start date_end of
                  Inl e \<Rightarrow> ([dataset_path], Inl e)
                | Inr datevecs_for_dataset \<Rightarrow>
                    (let (opened, newvar) =
                           extract_dataset fs lats lons dataset_path variables
                             (TimeArray datevecs_for_dataset) interpolate
                     in (dataset_path # opened, newvar)))))"

text \<open>
  Lines 123-137 of \<open>extract_dataset_list\<close>: the loop over the dataset files. The state is
  the list of files opened so far and \<open>var_list\<close>. The skip test is \<open>newvar != []\<close> and
  nothing else.
\<close>

fun extract_files :: "filesystem \<Rightarrow> real list \<Rightarrow> real list \<Rightarrow> string list \<Rightarrow> datetime64 ndarray
    \<Rightarrow> bool \<Rightarrow> string list \<Rightarrow> string list \<times> retval list \<Rightarrow> string list \<times> (error + retval list)" where
  "extract_files fs lats lons variables datearray interpolate [] (opened, var_list) =
     (opened, Inr var_list)"
| "extract_files fs lats lons variables datearray interpolate (dataset_path # paths) (opened, var_list) =
     (case extract_file fs lats lons variables datearray interpolate dataset_path of
        (opened', Inl e) \<Rightarrow> (opened @ opened', Inl e)
      | (opened', Inr newvar) \<Rightarrow>
          extract_files fs lats lons variables datearray interpolate paths
            (opened @ opened', if newvar \<noteq> Matrices [] then var_list @ [newvar] else var_list))"

text \<open>
  Line 145: \<open>var[index_variable] = np.vstack((var[index_variable], new[index_variable]))\<close>.
  Subscripting an integer is a type error.
\<close>

definition vstack_variable :: "retval \<Rightarrow> nat \<Rightarrow> retval \<Rightarrow> error + retval" where
  "vstack_variable new index_variable var =
     (case var of
        Sentinel _ \<Rightarrow> Inl TypeError
      | Matrices vs \<Rightarrow>
          if \<not> index_variable < length vs then Inl IndexError
          else (case new of
                  Sentinel _ \<Rightarrow> Inl TypeError
                | Matrices ns \<Rightarrow>
                    if \<not> index_variable < length ns then Inl IndexError
                    else (case vstack (vs ! index_variable) (ns ! index_variable) of
                            Inl e \<Rightarrow> Inl e
                          | Inr m \<Rightarrow> Inr (Matrices (vs[index_variable := m])))))"

text \<open>Lines 138-147: \<open>var = var_list[0]\<close>, then every later entry is stacked under it.\<close>

definition stitch :: "retval list \<Rightarrow> nat \<Rightarrow> error + retval" where
  "stitch var_list n_variables =
     (case var_list of
        [] \<Rightarrow> Inl IndexError
      | var # rest \<Rightarrow>
          for_loop rest
            (\<lambda>new var.
               if new = Matrices [] then Inr var
               else for_loop [0..<n_variables] (vstack_variable new) var)
            var)"

text \<open>\<open>extract_dataset_list\<close> (lines 96-147).\<close>

definition extract_dataset_list :: "filesystem \<Rightarrow> real list \<Rightarrow> real list \<Rightarrow> string list \<Rightarrow> string list
    \<Rightarrow> datetime64 ndarray \<Rightarrow> bool \<Rightarrow> string list \<times> (error + retval)" where
  "extract_dataset_list fs lats lons dataset_path_list variables datearray interpolate =
     (case extract_files fs lats lons variables datearray interpolate dataset_path_list ([], []) of
        (opened, Inl e) \<Rightarrow> (opened, Inl e)
      | (opened, Inr var_list) \<Rightarrow> (opened, stitch var_list (length variables)))"

text \<open>The outcome of the loop body (lines 124-135) for one file, without the list of opened files.\<close>

definition per_file :: "filesystem \<Rightarrow> real list \<Rightarrow> real list \<Rightarrow> string list \<Rightarrow> datetime64 ndarray
    \<Rightarrow> bool \<Rightarrow> string \<Rightarrow> error + retval" where
  "per_file fs lats lons variables datearray interpolate dataset_path =
     snd (extract_file fs lats lons variables datearray interpolate dataset_path)"

section \<open>Example data\<close>

text \<open>
  A small file system for the concrete instances below: file \<open>a\<close> covers the first two
  hours of a day at hourly steps, file \<open>b\<close> the first hour of the next day; both carry
  the fields TQV and PS, whose value at a time and place is the time plus the latitude.
\<close>

definition example_dataset :: "time list \<Rightarrow> dataset" where
  "example_dataset axis =
     \<lparr>ds_time = axis, ds_names = [''TQV'', ''PS''],
      ds_value = (\<lambda>v t lat lon. Val (real_of_int t + lat)),
      ds_interp = (\<lambda>v t lat lon. Val (real_of_int t + lat))\<rparr>"

definition example_fs :: filesystem where
  "example_fs =
     \<lparr>fs_open = [''a'' \<mapsto> example_dataset [0, 3600, 7200], ''b'' \<mapsto> example_dataset [86400, 90000]]\<rparr>"

lemmas eval_defs = extract_dataset_def extract_opened_def open_sel_def example_fs_def example_dataset_def
  np_unique_def datetime_for_station_def datetime_for_interp_def temporal_step_def station_data_of_def
  fill_column_def fill_row_def assign_col_def assign_row_def np_empty_def column_def nrows_def
  extract_dataset_list_def extract_file_def per_file_def window_def astype_object_def
  datetime_min_def datetime_max_def stitch_def vstack_variable_def vstack_def date_check_vec_def
  halfhour_def wf_array_def

section \<open>Loops\<close>

lemma for_loop_append:
  "for_loop (xs @ ys) body s = (case for_loop xs body s of Inl e \<Rightarrow> Inl e | Inr s' \<Rightarrow> for_loop ys body s')"
  by (induction xs arbitrary: s) (auto split: sum.splits)

lemma for_loop_invariant:
  assumes "for_loop xs body s = Inr r" and "P s"
    and "\<And>i s s'. i \<in> set xs \<Longrightarrow> P s \<Longrightarrow> body i s = Inr s' \<Longrightarrow> P s'"
  shows "P r"
  using assms
proof (induction xs arbitrary: s)
  case Nil
  then show ?case by simp
next
  case (Cons x xs)
  from Cons.prems(1) obtain s' where s': "body x s = Inr s'" "for_loop xs body s' = Inr r"
    by (auto split: sum.splits)
  have "P s'" using Cons.prems(2,3) s'(1) by auto
  then show ?case using Cons.IH [OF s'(2)] Cons.prems(3) by auto
qed

lemma for_loop_fails:
  assumes "i \<in> set xs" and "P s"
    and "\<And>j s s'. j \<in> set xs \<Longrightarrow> P s \<Longrightarrow> body j s = Inr s' \<Longrightarrow> P s'"
    and "\<And>s. P s \<Longrightarrow> \<exists>e. body i s = Inl e"
  shows "\<exists>e. for_loop xs body s = Inl e"
  using assms
proof (induction xs arbitrary: s)
  case Nil
  then show ?case by simp
next
  case (Cons x xs)
  show ?case
  proof (cases "body x s")
    case (Inl e)
    then show ?thesis by simp
  next
    case (Inr s')
    have P': "P s'" using Cons.prems(2,3) Inr by auto
    have "x \<noteq> i" using Cons.prems(2,4) Inr by force
    then have "i \<in> set xs" using Cons.prems(1) by auto
    then have "\<exists>e. for_loop xs body s' = Inl e"
      using Cons.IH [OF _ P'] Cons.prems(3,4) by auto
    then show ?thesis using Inr by simp
  qed
qed

lemma for_loop_collect:
  "for_loop xs (\<lambda>x acc. case f x of Inl e \<Rightarrow> Inl e | Inr y \<Rightarrow> Inr (acc @ [y])) acc = Inr r
   \<Longrightarrow> \<exists>ys. r = acc @ ys \<and> list_all2 (\<lambda>x y. f x = Inr y) xs ys"
proof (induction xs arbitrary: acc)
  case Nil
  then show ?case by simp
next
  case (Cons x xs)
  then obtain y where y: "f x = Inr y" by (auto split: sum.splits)
  with Cons.prems have "for_loop xs (\<lambda>x acc. case f x of Inl e \<Rightarrow> Inl e | Inr y \<Rightarrow> Inr (acc @ [y])) (acc @ [y]) = Inr r"
    by simp
  from Cons.IH [OF this] obtain ys where "r = (acc @ [y]) @ ys" "list_all2 (\<lambda>x y. f x = Inr y) xs ys"
    by blast
  then show ?case using y by (intro exI [of _ "y # ys"]) simp
qed

section \<open>Coordinate Resolver\<close>

lemma nth_index_of: "x \<in> set ys \<Longrightarrow> ys ! index_of ys x = x"
  by (induction ys) auto

text \<open>
  C7. Deduplication round-trips: for equal-length latitude and longitude sequences and
  every station index \<open>i\<close>, the sorted unique latitudes indexed by the latitude inverse
  index at \<open>i\<close> give back \<open>lats[i]\<close>, and likewise for the longitudes; the unique sets are
  sorted and free of duplicates.
\<close>

theorem coordinate_roundtrip:
  assumes "length lats = length lons" and "i < length lats"
  shows "fst (np_unique lats) ! (snd (np_unique lats) ! i) = lats ! i
       \<and> fst (np_unique lons) ! (snd (np_unique lons) ! i) = lons ! i
       \<and> sorted (fst (np_unique lats)) \<and> distinct (fst (np_unique lats))
       \<and> sorted (fst (np_unique lons)) \<and> distinct (fst (np_unique lons))"
  using assms by (simp add: np_unique_def Let_def nth_index_of)

theorem coordinate_roundtrip_witness:
  "length [3::real, 1, 3] = length [7::real, 7, 2] \<and> (2::nat) < length [3::real, 1, 3]
   \<and> fst (np_unique [3::real, 1, 3]) = [1, 3] \<and> snd (np_unique [3::real, 1, 3]) = [1, 0, 1]
   \<and> fst (np_unique [3::real, 1, 3]) ! (snd (np_unique [3::real, 1, 3]) ! 2) = [3::real, 1, 3] ! 2
   \<and> fst (np_unique [7::real, 7, 2]) ! (snd (np_unique [7::real, 7, 2]) ! 2) = [7::real, 7, 2] ! 2"
  using coordinate_roundtrip [of "[3::real, 1, 3]" "[7::real, 7, 2]" 2]
  by (simp add: np_unique_def)

section \<open>Temporal Validator: properties\<close>

lemma valid_times_filter: "map Some (valid_times c) = filter (\<lambda>d. d \<noteq> None) c"
  by (induction c rule: valid_times.induct) auto

lemma valid_times_window:
  "valid_times (map (\<lambda>t. if s \<le> t \<and> t \<le> e then Some t else None) ts) = filter (\<lambda>t. s \<le> t \<and> t \<le> e) ts"
  by (induction ts) auto

lemma datetime_for_station_ok:
  "n \<le> ncols a \<Longrightarrow>
   datetime_for_station a n = Inr (map (\<lambda>i. valid_times (map (\<lambda>r. r ! i) (rows a))) [0..<n])"
  unfolding datetime_for_station_def
  by (induction n) (auto simp: for_loop_append column_def)

lemma map_err_all2: "map_err f xs = Inr ys \<Longrightarrow> list_all2 (\<lambda>x y. f x = Inr y) xs ys"
  by (induction xs arbitrary: ys) (auto split: sum.splits)

lemma date_check_object:
  "date_check (astype_object d) s e = Inr r \<Longrightarrow>
   \<exists>t. d = Some t \<and> datetime_min \<le> t \<and> t \<le> datetime_max \<and> r = (if s \<le> t \<and> t \<le> e then Some t else None)"
  by (cases d) (auto simp: astype_object_def split: if_splits)

lemma date_check_vec_rows:
  assumes "date_check_vec a s e = Inr c"
  shows "ncols c = ncols a \<and> concat (rows a) \<noteq> []
       \<and> list_all2 (list_all2 (\<lambda>d r. date_check (astype_object d) s e = Inr r)) (rows a) (rows c)"
proof -
  from assms obtain checked where ne: "concat (rows a) \<noteq> []"
    and m: "map_err (map_err (\<lambda>d. date_check (astype_object d) s e)) (rows a) = Inr checked"
    and c: "c = NdArray (ncols a) checked"
    by (auto simp: date_check_vec_def split: if_splits sum.splits)
  have "list_all2 (\<lambda>x y. map_err (\<lambda>d. date_check (astype_object d) s e) x = Inr y) (rows a) checked"
    by (rule map_err_all2 [OF m])
  then have "list_all2 (list_all2 (\<lambda>d r. date_check (astype_object d) s e = Inr r)) (rows a) checked"
    by (rule list_all2_mono) (rule map_err_all2)
  then show ?thesis using ne c by simp
qed

lemma date_check_vec_cell:
  assumes "date_check_vec a s e = Inr c" and "k < length (rows a)" and "i < length (rows a ! k)"
  shows "\<exists>t. rows a ! k ! i = Some t \<and> datetime_min \<le> t \<and> t \<le> datetime_max
           \<and> rows c ! k ! i = (if s \<le> t \<and> t \<le> e then Some t else None)"
proof -
  from date_check_vec_rows [OF assms(1)]
  have all2: "list_all2 (list_all2 (\<lambda>d r. date_check (astype_object d) s e = Inr r)) (rows a) (rows c)"
    by simp
  have "list_all2 (\<lambda>d r. date_check (astype_object d) s e = Inr r) (rows a ! k) (rows c ! k)"
    by (rule list_all2_nthD [OF all2 assms(2)])
  then have "date_check (astype_object (rows a ! k ! i)) s e = Inr (rows c ! k ! i)"
    by (rule list_all2_nthD [OF _ assms(3)])
  then show ?thesis by (rule date_check_object)
qed

lemma date_check_vec_nrows:
  "date_check_vec a s e = Inr c \<Longrightarrow> length (rows c) = length (rows a)"
  using date_check_vec_rows [of a s e c] by (auto dest: list_all2_lengthD)

text \<open>
  C2. For a timestamp \<open>t\<close> and a window already expanded by the tolerance (half an hour,
  1800 seconds, in the stitcher), \<open>date_check\<close> returns \<open>t\<close> unchanged when
  \<open>start \<le> t \<le> end\<close>, both bounds included, and NaT otherwise. When the stitcher's
  vectorised check of a request matrix succeeds, the per-station valid-time sequence that
  \<open>extract_dataset\<close> builds from the checked matrix is the station's checked column with
  every NaT entry removed (a filter: the sequence gets shorter), that is, the station's
  requested timestamps that lie in the window, in order. The vectorised check is not
  defined on a NaT cell or on a timestamp outside the range of \<open>datetime.datetime\<close>: there
  \<open>date_check\<close> raises a type error, so the check succeeds on matrices of in-range
  timestamps only.
\<close>

theorem temporal_validator:
  assumes "wf_array datearray" and "index_station < n" and "n \<le> ncols datearray"
    and "date_check_vec datearray date_start date_end = Inr checked"
  shows "date_check (PyDatetime t) date_start date_end
           = Inr (if date_start \<le> t \<and> t \<le> date_end then Some t else None)
       \<and> date_check PyNone date_start date_end = Inl TypeError
       \<and> date_check (PyInt k) date_start date_end = Inl TypeError
       \<and> halfhour = 1800
       \<and> (\<exists>ts cc dfs. column datearray index_station = Inr (map Some ts)
            \<and> column checked index_station = Inr cc
            \<and> cc = map (\<lambda>t. if date_start \<le> t \<and> t \<le> date_end then Some t else None) ts
            \<and> datetime_for_station checked n = Inr dfs
            \<and> length dfs = n
            \<and> map Some (dfs ! index_station) = filter (\<lambda>d. d \<noteq> None) cc
            \<and> dfs ! index_station = filter (\<lambda>t. date_start \<le> t \<and> t \<le> date_end) ts)"
proof -
  let ?g = "\<lambda>t. if date_start \<le> t \<and> t \<le> date_end then Some t else None"
  let ?c = "map (\<lambda>r. r ! index_station) (rows datearray)"
  let ?cc = "map (\<lambda>r. r ! index_station) (rows checked)"
  let ?ts = "valid_times ?c"
  have i: "index_station < ncols datearray" using assms(2,3) by simp
  have len: "\<And>r. r \<in> set (rows datearray) \<Longrightarrow> length r = ncols datearray"
    using assms(1) by (simp add: wf_array_def list_all_iff)
  have nc: "ncols checked = ncols datearray"
    using date_check_vec_rows [OF assms(4)] by simp
  have nr: "length (rows checked) = length (rows datearray)"
    by (rule date_check_vec_nrows [OF assms(4)])
  have cell: "\<exists>t. rows datearray ! k ! index_station = Some t
                \<and> rows checked ! k ! index_station = ?g t" if "k < length (rows datearray)" for k
  proof -
    have "index_station < length (rows datearray ! k)" using len that i by simp
    from date_check_vec_cell [OF assms(4) that this] show ?thesis by blast
  qed
  have some: "map Some ?ts = ?c"
  proof -
    have "d \<noteq> None" if "d \<in> set ?c" for d
    proof -
      from that obtain k where k: "k < length (rows datearray)" "d = rows datearray ! k ! index_station"
        by (auto simp: in_set_conv_nth)
      from cell [OF k(1)] k(2) show ?thesis by auto
    qed
    then have "filter (\<lambda>d. d \<noteq> None) ?c = ?c" by (intro filter_True) blast
    then show ?thesis unfolding valid_times_filter .
  qed
  have cc: "?cc = map ?g ?ts"
  proof (rule nth_equalityI)
    show l: "length ?cc = length (map ?g ?ts)"
      using nr arg_cong [OF some, of length] by simp
    fix k assume "k < length ?cc"
    then have k: "k < length (rows datearray)" using nr by simp
    from cell [OF k] obtain t where t: "rows datearray ! k ! index_station = Some t"
      "rows checked ! k ! index_station = ?g t" by blast
    have "Some (?ts ! k) = ?c ! k" using arg_cong [OF some, of "\<lambda>xs. xs ! k"] k l nr by simp
    then have "?ts ! k = t" using t(1) k by simp
    then show "?cc ! k = map ?g ?ts ! k" using t(2) k l nr by simp
  qed
  have c1: "column datearray index_station = Inr (map Some ?ts)"
    using i some by (simp add: column_def)
  have c2: "column checked index_station = Inr ?cc"
    using i nc by (simp add: column_def)
  have "n \<le> ncols checked" using assms(3) nc by simp
  then have dfs: "datetime_for_station checked n
      = Inr (map (\<lambda>i. valid_times (map (\<lambda>r. r ! i) (rows checked))) [0..<n])"
    by (rule datetime_for_station_ok)
  let ?dfs = "map (\<lambda>i. valid_times (map (\<lambda>r. r ! i) (rows checked))) [0..<n]"
  have sel: "?dfs ! index_station = valid_times ?cc" using assms(2) by simp
  have 4: "length ?dfs = n" by simp
  have 5: "map Some (?dfs ! index_station) = filter (\<lambda>d. d \<noteq> None) ?cc"
    unfolding sel by (rule valid_times_filter)
  have 6: "?dfs ! index_station = filter (\<lambda>t. date_start \<le> t \<and> t \<le> date_end) ?ts"
    unfolding sel cc by (rule valid_times_window)
  from c1 c2 cc dfs 4 5 6
  have "\<exists>ts cc dfs. column datearray index_station = Inr (map Some ts)
            \<and> column checked index_station = Inr cc
            \<and> cc = map ?g ts
            \<and> datetime_for_station checked n = Inr dfs
            \<and> length dfs = n
            \<and> map Some (dfs ! index_station) = filter (\<lambda>d. d \<noteq> None) cc
            \<and> dfs ! index_station = filter (\<lambda>t. date_start \<le> t \<and> t \<le> date_end) ts"
    by blast
  moreover have "halfhour = 1800" by (simp add: halfhour_def)
  ultimately show ?thesis by simp
qed

theorem temporal_validator_witness:
  "wf_array (NdArray 2 [[Some 0, Some 5401], [Some 3600, Some (5000::int)]])
   \<and> (1::nat) < 2 \<and> (2::nat) \<le> ncols (NdArray 2 [[Some 0, Some 5401], [Some 3600, Some (5000::int)]])
   \<and> date_check_vec (NdArray 2 [[Some 0, Some 5401], [Some 3600, Some 5000]]) (0 - halfhour) (3600 + halfhour)
       = Inr (NdArray 2 [[Some 0, None], [Some 3600, Some 5000]])
   \<and> date_check (PyDatetime 5000) (0 - halfhour) (3600 + halfhour) = Inr (Some 5000)
   \<and> date_check (PyDatetime 5401) (0 - halfhour) (3600 + halfhour) = Inr None
   \<and> datetime_for_station (NdArray 2 [[Some 0, None], [Some 3600, Some 5000]]) 2 = Inr [[0, 3600], [5000]]"
proof -
  let ?D = "NdArray 2 [[Some 0, Some 5401], [Some 3600, Some (5000::int)]]"
  let ?C = "NdArray 2 [[Some 0, None], [Some 3600, Some (5000::int)]]"
  have h1: "wf_array ?D" by (simp add: wf_array_def)
  have h2: "(1::nat) < 2" by simp
  have h3: "(2::nat) \<le> ncols ?D" by simp
  have h4: "date_check_vec ?D (0 - halfhour) (3600 + halfhour) = Inr ?C"
    by (simp add: date_check_vec_def astype_object_def datetime_min_def datetime_max_def halfhour_def)
  note w = temporal_validator [OF h1 h2 h3 h4]
  have a: "date_check (PyDatetime 5000) (0 - halfhour) (3600 + halfhour) = Inr (Some 5000)"
    using w [of 5000] by (simp add: halfhour_def)
  have b: "date_check (PyDatetime 5401) (0 - halfhour) (3600 + halfhour) = Inr None"
    using w [of 5401] by (simp add: halfhour_def)
  have c: "datetime_for_station ?C 2 = Inr [[0, 3600], [5000]]"
    by (simp add: datetime_for_station_def column_def numeral_2_eq_2)
  from h1 h2 h3 h4 a b c show ?thesis by blast
qed

section \<open>Single-File Extractor: properties\<close>

text \<open>
  C3. When a requested variable name is absent from the opened dataset file, the call
  returns the sentinel integer -1 in place of a matrix list: no partial per-variable
  result and no exception.
\<close>

theorem missing_variable:
  assumes "fs_open fs dataset_path = Some ds"
    and "v \<in> set variables" and "v \<notin> set (ds_names ds)"
  shows "extract_dataset fs lats lons dataset_path variables (TimeArray arr) interpolate
           = ([dataset_path], Inr (Sentinel (- 1)))"
proof -
  have "\<not> list_all (\<lambda>v. v \<in> set (ds_names ds)) variables"
    using assms(2,3) by (auto simp: list_all_iff)
  then have "open_sel fs dataset_path variables = None"
    using assms(1) by (simp add: open_sel_def)
  then show ?thesis
    by (simp add: extract_dataset_def split: prod.splits)
qed

theorem missing_variable_witness:
  "fs_open example_fs ''a'' = Some (example_dataset [0, 3600, 7200])
   \<and> ''XX'' \<in> set [''TQV'', ''XX'']
   \<and> ''XX'' \<notin> set (ds_names (example_dataset [0, 3600, 7200]))
   \<and> extract_dataset example_fs [1, 2] [5, 6] ''a'' [''TQV'', ''XX'']
        (TimeArray (NdArray 2 [[Some 0, Some 3600]])) True
       = ([''a''], Inr (Sentinel (- 1)))"
  using missing_variable [of example_fs "''a''" "example_dataset [0, 3600, 7200]" "''XX''"
      "[''TQV'', ''XX'']" "[1, 2]" "[5, 6]" "NdArray 2 [[Some 0, Some 3600]]" True]
  by (simp add: example_fs_def example_dataset_def)

lemma assign_col_shape:
  "assign_col a j vals = Inr b \<Longrightarrow> ncols b = ncols a \<and> length (rows b) = length (rows a)"
  by (auto simp: assign_col_def split: if_splits)

lemma assign_row_shape:
  "assign_row a i vals = Inr b \<Longrightarrow> ncols b = ncols a \<and> length (rows b) = length (rows a)"
  by (auto simp: assign_row_def split: if_splits)

lemma fill_column_shape:
  "fill_column dsi v lats lons dfs m i a = Inr b \<Longrightarrow> ncols b = ncols a \<and> length (rows b) = length (rows a)"
  by (auto simp: fill_column_def split: if_splits sum.splits dest: assign_col_shape)

lemma fill_column_out_of_range:
  "ncols a = length lats \<Longrightarrow> \<not> i < length lats \<Longrightarrow> \<exists>e. fill_column dsi v lats lons dfs m i a = Inl e"
  by (auto simp: fill_column_def assign_col_def)

lemma fill_row_out_of_range:
  "\<not> i < length lats \<Longrightarrow> \<exists>e. fill_row dsi v lats lons i a = Inl e"
  by (auto simp: fill_row_def)

lemma station_data_of_fails:
  assumes "length lats < length lons"
  shows "\<exists>e. station_data_of dsi interpolate lats lons lons_unique dfs m v = Inl e"
proof (cases interpolate)
  case True
  have "\<exists>e. for_loop [0..<length lons] (fill_column dsi v lats lons dfs m) (np_empty m (length lats)) = Inl e"
  proof (rule for_loop_fails [where i = "length lats" and P = "\<lambda>a. ncols a = length lats"])
    show "length lats \<in> set [0..<length lons]" using assms by simp
    show "ncols (np_empty m (length lats)) = length lats" by (simp add: np_empty_def)
  next
    fix j s s'
    assume "ncols s = length lats" "fill_column dsi v lats lons dfs m j s = Inr s'"
    then show "ncols s' = length lats" using fill_column_shape by fastforce
  next
    fix s :: "cell ndarray"
    assume "ncols s = length lats"
    then show "\<exists>e. fill_column dsi v lats lons dfs m (length lats) s = Inl e"
      by (rule fill_column_out_of_range) simp
  qed
  then show ?thesis using True by (simp add: station_data_of_def)
next
  case False
  have "\<exists>e. for_loop [0..<length lons] (fill_row dsi v lats lons) (np_empty (length lons_unique) 1) = Inl e"
  proof (rule for_loop_fails [where i = "length lats" and P = "\<lambda>a. True"])
    show "length lats \<in> set [0..<length lons]" using assms by simp
  next
    fix s :: "cell ndarray"
    show "\<exists>e. fill_row dsi v lats lons (length lats) s = Inl e"
      by (rule fill_row_out_of_range) simp
  qed simp_all
  then show ?thesis using False by (simp add: station_data_of_def)
qed

lemma extract_opened_longer_lons:
  assumes "length lats < length lons" and "variables \<noteq> []"
  shows "extract_opened ds lats lons lons_unique variables arr interpolate \<noteq> Inr (Matrices var)"
proof -
  obtain v vs where vs: "variables = v # vs" using assms(2) by (cases variables) auto
  show ?thesis
  proof (cases "datetime_for_station arr (length lons)")
    case (Inl e)
    then show ?thesis by (simp add: extract_opened_def)
  next
    case (Inr dfs)
    show ?thesis
    proof (cases "temporal_step ds variables interpolate (datetime_for_interp arr)")
      case (Inl e)
      then show ?thesis using \<open>datetime_for_station arr (length lons) = Inr dfs\<close>
        by (simp add: extract_opened_def)
    next
      case step: (Inr r)
      show ?thesis
      proof (cases r)
        case None
        then show ?thesis using Inr step by (simp add: extract_opened_def)
      next
        case (Some dsi)
        obtain e where "station_data_of dsi interpolate lats lons lons_unique dfs (nrows arr) v = Inl e"
          using station_data_of_fails [OF assms(1)] by blast
        then show ?thesis using Inr step Some vs by (simp add: extract_opened_def)
      qed
    qed
  qed
qed

text \<open>
  C5, as the code has it. The claim is that unequal latitude and longitude lengths make the
  call fail before any dataset file is accessed. The code has no length check. At the
  input below there are two latitudes and one longitude: the file is opened and the call
  returns normally, with a second column that was never written.
\<close>

theorem length_mismatch_counterexample:
  "length [1::real, 2] \<noteq> length [5::real]
   \<and> extract_dataset example_fs [1, 2] [5] ''a'' [''TQV'']
        (TimeArray (NdArray 2 [[Some 0, Some 3600], [Some 3600, Some 7200]])) True
      = ([''a''], Inr (Matrices [NdArray 2 [[Val 1, Uninit], [Val 3601, Uninit]]]))"
  by (simp add: eval_defs)

text \<open>
  C5, amended. \<open>extract_dataset\<close> does not compare the lengths of the latitude and
  longitude sequences, so nothing fails before the dataset access: whatever the lengths,
  an empty request returns the empty list without a failure, and every other request
  opens the dataset file first. With more longitudes than latitudes and at least one
  variable requested, the call then never returns matrices: it ends, after the access, in
  an exception or a sentinel.
\<close>

theorem no_length_check:
  "(datetime = PyList_empty \<longrightarrow>
      extract_dataset fs lats lons dataset_path variables datetime interpolate = ([], Inr (Matrices [])))
   \<and> (datetime \<noteq> PyList_empty \<longrightarrow>
      fst (extract_dataset fs lats lons dataset_path variables datetime interpolate) = [dataset_path])
   \<and> (datetime \<noteq> PyList_empty \<and> length lats < length lons \<and> variables \<noteq> [] \<longrightarrow>
      snd (extract_dataset fs lats lons dataset_path variables datetime interpolate) \<noteq> Inr (Matrices var))"
  using extract_opened_longer_lons [of lats lons variables]
  by (cases datetime) (auto simp: extract_dataset_def split: prod.splits option.splits)

theorem no_length_check_witness:
  "TimeArray (NdArray 2 [[Some 0, Some 3600]]) \<noteq> PyList_empty
   \<and> length [1::real] < length [5::real, 6] \<and> [''TQV''] \<noteq> []
   \<and> extract_dataset example_fs [1] [5, 6] ''a'' [''TQV''] (TimeArray (NdArray 2 [[Some 0, Some 3600]])) True
       = ([''a''], Inl IndexError)
   \<and> extract_dataset example_fs [1] [5, 6] ''a'' [''TQV''] PyList_empty True = ([], Inr (Matrices []))"
  using no_length_check [of "TimeArray (NdArray 2 [[Some 0, Some 3600]])" example_fs "[1]" "[5, 6]"
      "''a''" "[''TQV'']" True "[]"]
    no_length_check [of PyList_empty example_fs "[1]" "[5, 6]" "''a''" "[''TQV'']" True "[]"]
  by (simp add: eval_defs)

lemma sel_times_eq: "sel_times axis ts = (if set ts \<subseteq> set axis then Inr ts else Inl KeyError)"
  by (induction ts) auto

lemma set_valid_times: "set (valid_times c) = {t. Some t \<in> set c}"
  by (induction c rule: valid_times.induct) auto

lemma set_datetime_for_interp:
  "set (datetime_for_interp arr) = {t. \<exists>r \<in> set (rows arr). Some t \<in> set r}"
  by (auto simp: datetime_for_interp_def np_unique_def Let_def set_valid_times)

lemma union_of_columns:
  assumes "wf_array arr"
  shows "set (datetime_for_interp arr)
       = (\<Union>i<ncols arr. set (valid_times (map (\<lambda>r. r ! i) (rows arr))))"
proof -
  have len: "\<And>r. r \<in> set (rows arr) \<Longrightarrow> length r = ncols arr"
    using assms by (simp add: wf_array_def list_all_iff)
  show ?thesis
  proof (intro set_eqI iffI)
    fix t assume "t \<in> set (datetime_for_interp arr)"
    then obtain r where r: "r \<in> set (rows arr)" "Some t \<in> set r"
      by (auto simp: set_datetime_for_interp)
    then obtain i where i: "i < length r" "r ! i = Some t"
      by (auto simp: in_set_conv_nth)
    have "i < ncols arr" using i(1) len [OF r(1)] by simp
    moreover have "Some t \<in> set (map (\<lambda>r. r ! i) (rows arr))"
      using r(1) i(2) by force
    ultimately show "t \<in> (\<Union>i<ncols arr. set (valid_times (map (\<lambda>r. r ! i) (rows arr))))"
      by (auto simp: set_valid_times)
  next
    fix t assume "t \<in> (\<Union>i<ncols arr. set (valid_times (map (\<lambda>r. r ! i) (rows arr))))"
    then obtain i r where ir: "i < ncols arr" "r \<in> set (rows arr)" "r ! i = Some t"
      by (auto simp: set_valid_times)
    then have "Some t \<in> set r" using len [OF ir(2)] by (metis nth_mem)
    then show "t \<in> set (datetime_for_interp arr)"
      using ir(2) by (auto simp: set_datetime_for_interp)
  qed
qed


lemma temporal_step_exact:
  "variables \<noteq> [] \<Longrightarrow> 1 < length (ds_time ds) \<Longrightarrow>
   temporal_step ds variables False ts
     = (if set ts \<subseteq> set (ds_time ds) then Inr (Some \<lparr>sel_time = ts, sel_value = ds_value ds\<rparr>)
        else Inr None)"
  by (simp add: temporal_step_def sel_times_eq)

lemma extract_opened_no_sentinel:
  "temporal_step ds variables interpolate (datetime_for_interp arr) = Inr (Some dsi) \<Longrightarrow>
   extract_opened ds lats lons lons_unique variables arr interpolate \<noteq> Inr (Sentinel k)"
  by (auto simp: extract_opened_def split: sum.splits)

text \<open>
  C4. Exact mode (\<open>interpolate=False\<close>) on a file whose native time axis has more than
  one step, for a request with one column per station and at least one requested variable,
  all of them present. The timestamps handed to the selection are the union of the
  stations' valid requested timestamps. If one of them is not on the native axis, the call
  returns the sentinel -2 and no per-variable result; if all of them are, the selection
  succeeds on exactly these timestamps with the native values (no interpolation) and the
  call returns no sentinel.
\<close>

theorem exact_mode:
  assumes "fs_open fs dataset_path = Some ds"
    and "variables \<noteq> []"
    and "list_all (\<lambda>v. v \<in> set (ds_names ds)) variables"
    and "wf_array arr" and "ncols arr = length lons"
    and "1 < length (ds_time ds)"
  shows "\<exists>dfs. datetime_for_station arr (length lons) = Inr dfs
     \<and> set (datetime_for_interp arr) = (\<Union>i<length lons. set (dfs ! i))
     \<and> ((\<exists>i<length lons. \<exists>t\<in>set (dfs ! i). t \<notin> set (ds_time ds)) \<longrightarrow>
          extract_dataset fs lats lons dataset_path variables (TimeArray arr) False
            = ([dataset_path], Inr (Sentinel (- 2))))
     \<and> ((\<forall>i<length lons. \<forall>t\<in>set (dfs ! i). t \<in> set (ds_time ds)) \<longrightarrow>
          temporal_step ds variables False (datetime_for_interp arr)
            = Inr (Some \<lparr>sel_time = datetime_for_interp arr, sel_value = ds_value ds\<rparr>)
          \<and> (\<forall>k. snd (extract_dataset fs lats lons dataset_path variables (TimeArray arr) False)
                 \<noteq> Inr (Sentinel k)))"
proof -
  let ?dfs = "map (\<lambda>i. valid_times (map (\<lambda>r. r ! i) (rows arr))) [0..<length lons]"
  let ?U = "datetime_for_interp arr"
  have dfs: "datetime_for_station arr (length lons) = Inr ?dfs"
    using assms(5) by (intro datetime_for_station_ok) simp
  have U: "set ?U = (\<Union>i<length lons. set (?dfs ! i))"
    using union_of_columns [OF assms(4)] assms(5) by simp
  have op: "open_sel fs dataset_path variables = Some ds"
    using assms(1,3) by (simp add: open_sel_def)
  have res: "extract_dataset fs lats lons dataset_path variables (TimeArray arr) False
      = ([dataset_path], extract_opened ds lats lons (fst (np_unique lons)) variables arr False)"
    using op by (simp add: extract_dataset_def split: prod.splits)
  have miss: "extract_dataset fs lats lons dataset_path variables (TimeArray arr) False
            = ([dataset_path], Inr (Sentinel (- 2)))"
    if "\<exists>i<length lons. \<exists>t\<in>set (?dfs ! i). t \<notin> set (ds_time ds)"
  proof -
    from that have "\<not> set ?U \<subseteq> set (ds_time ds)" unfolding U by blast
    then have "temporal_step ds variables False ?U = Inr None"
      using assms(2,6) by (simp add: temporal_step_exact)
    then show ?thesis unfolding res using dfs by (simp add: extract_opened_def)
  qed
  have hit: "temporal_step ds variables False ?U = Inr (Some \<lparr>sel_time = ?U, sel_value = ds_value ds\<rparr>)
          \<and> (\<forall>k. snd (extract_dataset fs lats lons dataset_path variables (TimeArray arr) False)
                 \<noteq> Inr (Sentinel k))"
    if "\<forall>i<length lons. \<forall>t\<in>set (?dfs ! i). t \<in> set (ds_time ds)"
  proof -
    from that have "set ?U \<subseteq> set (ds_time ds)" unfolding U by blast
    then have ts: "temporal_step ds variables False ?U = Inr (Some \<lparr>sel_time = ?U, sel_value = ds_value ds\<rparr>)"
      using assms(2,6) by (simp add: temporal_step_exact)
    show ?thesis unfolding res using ts extract_opened_no_sentinel [OF ts] by simp
  qed
  from dfs U miss hit show ?thesis by blast
qed

theorem exact_mode_witness:
  "fs_open example_fs ''a'' = Some (example_dataset [0, 3600, 7200])
   \<and> [''TQV''] \<noteq> []
   \<and> list_all (\<lambda>v. v \<in> set (ds_names (example_dataset [0, 3600, 7200]))) [''TQV'']
   \<and> wf_array (NdArray 2 [[Some 0, Some 3600], [Some 3600, Some (1800::int)]])
   \<and> ncols (NdArray 2 [[Some 0, Some 3600], [Some 3600, Some (1800::int)]]) = length [5::real, 6]
   \<and> 1 < length (ds_time (example_dataset [0, 3600, 7200]))
   \<and> datetime_for_station (NdArray 2 [[Some 0, Some 3600], [Some 3600, Some 1800]]) (length [5::real, 6])
       = Inr [[0, 3600], [3600, 1800]]
   \<and> 1800 \<notin> set (ds_time (example_dataset [0, 3600, 7200]))
   \<and> extract_dataset example_fs [1, 2] [5, 6] ''a'' [''TQV'']
        (TimeArray (NdArray 2 [[Some 0, Some 3600], [Some 3600, Some 1800]])) False
       = ([''a''], Inr (Sentinel (- 2)))
   \<and> datetime_for_station (NdArray 2 [[Some 0, Some 3600], [Some 3600, Some 7200]]) (length [5::real, 6])
       = Inr [[0, 3600], [3600, 7200]]
   \<and> temporal_step (example_dataset [0, 3600, 7200]) [''TQV''] False
        (datetime_for_interp (NdArray 2 [[Some 0, Some 3600], [Some 3600, Some 7200]]))
       = Inr (Some \<lparr>sel_time = [0, 3600, 7200], sel_value = ds_value (example_dataset [0, 3600, 7200])\<rparr>)
   \<and> extract_dataset example_fs [1, 2] [5, 6] ''a'' [''TQV'']
        (TimeArray (NdArray 2 [[Some 0, Some 3600], [Some 3600, Some 7200]])) False
       = ([''a''], Inr (Matrices [NdArray 1 [[Val 1], [Val 2]]]))"
proof -
  let ?ds = "example_dataset [0, 3600, 7200]"
  let ?arr = "NdArray 2 [[Some 0, Some 3600], [Some 3600, Some (1800::int)]]"
  let ?arr' = "NdArray 2 [[Some 0, Some 3600], [Some 3600, Some (7200::int)]]"
  have h1: "fs_open example_fs ''a'' = Some ?ds" by (simp add: example_fs_def)
  have h0: "[''TQV''] \<noteq> []" by simp
  have h2: "list_all (\<lambda>v. v \<in> set (ds_names ?ds)) [''TQV'']" by (simp add: example_dataset_def)
  have h3: "wf_array ?arr" by (simp add: wf_array_def)
  have h4: "ncols ?arr = length [5::real, 6]" by simp
  have h5: "1 < length (ds_time ?ds)" by (simp add: example_dataset_def)
  have h3': "wf_array ?arr'" by (simp add: wf_array_def)
  have h4': "ncols ?arr' = length [5::real, 6]" by simp
  have dfs: "datetime_for_station ?arr (length [5::real, 6]) = Inr [[0, 3600], [3600, 1800]]"
    by (simp add: datetime_for_station_def column_def)
  have dfs': "datetime_for_station ?arr' (length [5::real, 6]) = Inr [[0, 3600], [3600, 7200]]"
    by (simp add: datetime_for_station_def column_def)
  have off: "1800 \<notin> set (ds_time ?ds)" by (simp add: example_dataset_def)
  have ex: "\<exists>i<length [5::real, 6]. \<exists>t\<in>set ([[0, 3600], [3600, 1800]] ! i). t \<notin> set (ds_time ?ds)"
    using off by (intro exI [of _ 1]) simp
  have all: "\<forall>i<length [5::real, 6]. \<forall>t\<in>set ([[0, 3600], [3600, 7200]] ! i). t \<in> set (ds_time ?ds)"
    by (simp add: example_dataset_def less_Suc_eq)
  have U: "datetime_for_interp ?arr' = [0, 3600, 7200]"
    by (simp add: datetime_for_interp_def np_unique_def)
  from exact_mode [OF h1 h0 h2 h3 h4 h5, of "[1, 2]"] dfs ex
  have 1: "extract_dataset example_fs [1, 2] [5, 6] ''a'' [''TQV''] (TimeArray ?arr) False
       = ([''a''], Inr (Sentinel (- 2)))"
    by auto
  from exact_mode [OF h1 h0 h2 h3' h4' h5, of "[1, 2]"] dfs' all
  have 2: "temporal_step ?ds [''TQV''] False (datetime_for_interp ?arr')
       = Inr (Some \<lparr>sel_time = datetime_for_interp ?arr', sel_value = ds_value ?ds\<rparr>)"
    by auto
  have 3: "extract_dataset example_fs [1, 2] [5, 6] ''a'' [''TQV''] (TimeArray ?arr') False
       = ([''a''], Inr (Matrices [NdArray 1 [[Val 1], [Val 2]]]))"
    by (simp add: eval_defs)
  have step: "temporal_step ?ds [''TQV''] False (datetime_for_interp ?arr')
       = Inr (Some \<lparr>sel_time = [0, 3600, 7200], sel_value = ds_value ?ds\<rparr>)"
    using 2 U by simp
  from h1 h0 h2 h3 h4 h5 dfs off 1 dfs' step 3 show ?thesis by blast
qed

lemma fill_row_loop:
  assumes "for_loop [0..<n] (fill_row dsi v lats lons) a = Inr b" and "ncols a = 1"
  shows "ncols b = 1 \<and> length (rows b) = length (rows a) \<and> n \<le> length (rows a) \<and> n \<le> length lats
       \<and> (\<forall>i<n. rows b ! i = [sel_value dsi v (hd (sel_time dsi)) (lats ! i) (lons ! i)])"
  using assms
proof (induction n arbitrary: b)
  case 0
  then show ?case by simp
next
  case (Suc n)
  from Suc.prems(1) obtain b' where b': "for_loop [0..<n] (fill_row dsi v lats lons) a = Inr b'"
    and step: "fill_row dsi v lats lons n b' = Inr b"
    by (auto simp: for_loop_append split: sum.splits)
  note IH = Suc.IH [OF b' Suc.prems(2)]
  from step obtain t ts where ax: "sel_time dsi = t # ts" and n: "n < length lats"
    and asg: "assign_row b' n [sel_value dsi v t (lats ! n) (lons ! n)] = Inr b"
    by (auto simp: fill_row_def split: if_splits list.splits)
  from asg IH have nr: "n < length (rows b')"
    and b: "b = NdArray 1 ((rows b')[n := [sel_value dsi v t (lats ! n) (lons ! n)]])"
    by (auto simp: assign_row_def split: if_splits)
  have "\<forall>i<Suc n. rows b ! i = [sel_value dsi v (hd (sel_time dsi)) (lats ! i) (lons ! i)]"
  proof (intro allI impI)
    fix i assume "i < Suc n"
    then consider "i < n" | "i = n" by linarith
    then show "rows b ! i = [sel_value dsi v (hd (sel_time dsi)) (lats ! i) (lons ! i)]"
    proof cases
      case 1
      then show ?thesis using IH b by simp
    next
      case 2
      then show ?thesis using b nr ax by simp
    qed
  qed
  then show ?case using IH b nr n by simp
qed

lemma length_np_unique: "length (fst (np_unique xs)) \<le> length xs"
  by (simp add: np_unique_def Let_def length_remdups_leq)

lemma static_station_data:
  assumes "station_data_of dsi False lats lons (fst (np_unique lons)) dfs m v = Inr b"
  shows "b = NdArray 1 (map (\<lambda>i. [sel_value dsi v (hd (sel_time dsi)) (lats ! i) (lons ! i)]) [0..<length lons])
       \<and> length (fst (np_unique lons)) = length lons"
proof -
  let ?u = "fst (np_unique lons)"
  from assms have loop: "for_loop [0..<length lons] (fill_row dsi v lats lons) (np_empty (length ?u) 1) = Inr b"
    by (simp add: station_data_of_def)
  have "ncols (np_empty (length ?u) 1) = 1" by (simp add: np_empty_def)
  from fill_row_loop [OF loop this]
  have nc: "ncols b = 1" and len: "length (rows b) = length ?u" and le: "length lons \<le> length ?u"
    and val: "\<forall>i<length lons. rows b ! i = [sel_value dsi v (hd (sel_time dsi)) (lats ! i) (lons ! i)]"
    by (simp_all add: np_empty_def)
  have eq: "length ?u = length lons" using le length_np_unique [of lons] by simp
  have "rows b = map (\<lambda>i. [sel_value dsi v (hd (sel_time dsi)) (lats ! i) (lons ! i)]) [0..<length lons]"
    using len eq val by (intro nth_equalityI) simp_all
  then show ?thesis using nc eq by (cases b) simp
qed


lemma fill_column_loop_shape:
  assumes "for_loop xs (fill_column dsi v lats lons dfs m) a = Inr b"
  shows "ncols b = ncols a \<and> length (rows b) = length (rows a)"
  by (rule for_loop_invariant [OF assms, where P = "\<lambda>s. ncols s = ncols a \<and> length (rows s) = length (rows a)"])
     (use fill_column_shape in fastforce)+

lemma interp_station_data:
  assumes "station_data_of dsi True lats lons lons_unique dfs m v = Inr b"
  shows "ncols b = length lats \<and> nrows b = m"
  using fill_column_loop_shape [of "[0..<length lons]" dsi v lats lons dfs m "np_empty m (length lats)" b] assms
  by (simp add: station_data_of_def np_empty_def nrows_def)

lemma extract_opened_collect:
  assumes "extract_opened ds lats lons lons_unique variables arr interpolate = Inr (Matrices var)"
  shows "\<exists>dfs dsi. temporal_step ds variables interpolate (datetime_for_interp arr) = Inr (Some dsi)
     \<and> variables \<noteq> []
     \<and> list_all2 (\<lambda>v m. station_data_of dsi interpolate lats lons lons_unique dfs (nrows arr) v = Inr m)
          variables var"
proof -
  from assms obtain dfs dsi
    where ts: "temporal_step ds variables interpolate (datetime_for_interp arr) = Inr (Some dsi)"
    and loop: "for_loop variables
                 (\<lambda>x acc. case station_data_of dsi interpolate lats lons lons_unique dfs (nrows arr) x of
                            Inl e \<Rightarrow> Inl e | Inr y \<Rightarrow> Inr (acc @ [y])) [] = Inr var"
    by (auto simp: extract_opened_def split: sum.splits option.splits)
  have "variables \<noteq> []" using ts by (auto simp: temporal_step_def)
  with for_loop_collect [OF loop] ts show ?thesis by auto
qed

lemma extract_dataset_matrices:
  assumes "snd (extract_dataset fs lats lons dataset_path variables (TimeArray arr) interpolate) = Inr (Matrices var)"
  shows "\<exists>ds. fs_open fs dataset_path = Some ds
     \<and> extract_opened ds lats lons (fst (np_unique lons)) variables arr interpolate = Inr (Matrices var)"
  using assms
  by (auto simp: extract_dataset_def open_sel_def split: prod.splits option.splits if_splits)



lemma extract_dataset_shape:
  assumes "snd (extract_dataset fs lats lons dataset_path variables (TimeArray arr) interpolate) = Inr (Matrices ms)"
  shows "length ms = length variables
       \<and> (\<forall>j<length variables. ncols (ms ! j) = (if interpolate then length lats else 1)
              \<and> (interpolate \<longrightarrow> nrows (ms ! j) = nrows arr))"
proof -
  from extract_dataset_matrices [OF assms] obtain ds
    where eo: "extract_opened ds lats lons (fst (np_unique lons)) variables arr interpolate = Inr (Matrices ms)"
    by blast
  from extract_opened_collect [OF eo] obtain dfs dsi
    where all2: "list_all2 (\<lambda>v m. station_data_of dsi interpolate lats lons (fst (np_unique lons)) dfs (nrows arr) v = Inr m)
                   variables ms"
    by blast
  have len: "length ms = length variables" using all2 by (simp add: list_all2_lengthD)
  have "ncols (ms ! j) = (if interpolate then length lats else 1)
      \<and> (interpolate \<longrightarrow> nrows (ms ! j) = nrows arr)" if "j < length variables" for j
  proof (cases interpolate)
    case True
    then show ?thesis
      using list_all2_nthD [OF all2 that] interp_station_data by auto
  next
    case False
    then show ?thesis
      using list_all2_nthD [OF all2 that]
        static_station_data [of dsi lats lons dfs "nrows arr" "variables ! j" "ms ! j"] by auto
  qed
  then show ?thesis using len by blast
qed

lemma array_request_not_empty:
  "snd (extract_dataset fs lats lons dataset_path variables (TimeArray arr) interpolate) \<noteq> Inr (Matrices [])"
proof
  assume a: "snd (extract_dataset fs lats lons dataset_path variables (TimeArray arr) interpolate) = Inr (Matrices [])"
  from extract_dataset_matrices [OF a] obtain ds
    where "extract_opened ds lats lons (fst (np_unique lons)) variables arr interpolate = Inr (Matrices [])"
    by blast
  from extract_opened_collect [OF this] show False by auto
qed

lemma empty_list_request:
  "extract_dataset fs lats lons dataset_path variables PyList_empty interpolate = ([], Inr (Matrices []))
   \<and> fst (extract_dataset fs lats lons dataset_path variables (TimeArray arr) interpolate) = [dataset_path]
   \<and> snd (extract_dataset fs lats lons dataset_path variables (TimeArray arr) interpolate)
        \<noteq> Inr (Matrices [])"
  using array_request_not_empty [of fs lats lons dataset_path variables arr interpolate]
  by (simp add: extract_dataset_def split: prod.splits option.splits)

text \<open>
  C6. A call whose requested time set is empty is to return the empty result list at
  once, as a normal outcome, without opening the dataset file. The early return of
  \<open>extract_dataset\<close> tests \<open>datetime == []\<close>, which holds for the Python empty list
  only: for that request the call returns the empty list and opens nothing (first line
  below). The documented request is an array, and for an array without a single timestamp
  (one row of NaT; no row at all) the test is not true: the file is opened and the call
  does not return the empty list. In interpolation mode it ends in the value error of
  interpolating onto no timestamp, in exact mode in an index error.
\<close>

theorem empty_array_request_opens_file:
  "extract_dataset example_fs [1, 2] [5, 6] ''a'' [''TQV''] PyList_empty True = ([], Inr (Matrices []))
   \<and> valid_times (concat (rows (NdArray 2 [[None, None]]))) = []
   \<and> extract_dataset example_fs [1, 2] [5, 6] ''a'' [''TQV''] (TimeArray (NdArray 2 [[None, None]])) True
       = ([''a''], Inl ValueError)
   \<and> extract_dataset example_fs [1, 2] [5, 6] ''a'' [''TQV''] (TimeArray (NdArray 2 [[None, None]])) False
       = ([''a''], Inl IndexError)
   \<and> valid_times (concat (rows (NdArray 2 []))) = []
   \<and> extract_dataset example_fs [1, 2] [5, 6] ''a'' [''TQV''] (TimeArray (NdArray 2 [])) True
       = ([''a''], Inl ValueError)"
  by (simp add: eval_defs)

section \<open>Multi-File Stitcher: properties\<close>

lemma extract_files_results:
  assumes "map (per_file fs lats lons variables datearray interpolate) paths = map Inr results"
  shows "snd (extract_files fs lats lons variables datearray interpolate paths (opened, var_list))
       = Inr (var_list @ filter (\<lambda>r. r \<noteq> Matrices []) results)"
  using assms
proof (induction paths arbitrary: results opened var_list)
  case Nil
  then show ?case by simp
next
  case (Cons p paths)
  from Cons.prems obtain r rs where rs: "results = r # rs"
    and p: "per_file fs lats lons variables datearray interpolate p = Inr r"
    and rest: "map (per_file fs lats lons variables datearray interpolate) paths = map Inr rs"
    by (cases results) auto
  obtain opened' where run: "extract_file fs lats lons variables datearray interpolate p = (opened', Inr r)"
    using p by (cases "extract_file fs lats lons variables datearray interpolate p") (simp add: per_file_def)
  show ?case
    using run Cons.IH [OF rest] rs by simp
qed

lemma vstack_loop:
  assumes "length var = n" and "length new = n" and "k \<le> n"
    and "\<forall>j<n. ncols (new ! j) = ncols (var ! j)"
  shows "for_loop [0..<k] (vstack_variable (Matrices new)) (Matrices var)
       = Inr (Matrices (map (\<lambda>j. if j < k then NdArray (ncols (var ! j)) (rows (var ! j) @ rows (new ! j))
                                   else var ! j) [0..<n]))"
  using assms(3)
proof (induction k)
  case 0
  have "map ((!) var) [0..<n] = var" using assms(1) map_nth [of var] by simp
  then show ?case by simp
next
  case (Suc k)
  let ?f = "\<lambda>k j. if j < k then NdArray (ncols (var ! j)) (rows (var ! j) @ rows (new ! j)) else var ! j"
  have k: "k < n" using Suc.prems by simp
  have IH: "for_loop [0..<k] (vstack_variable (Matrices new)) (Matrices var) = Inr (Matrices (map (?f k) [0..<n]))"
    using Suc by simp
  have upd: "(map (?f k) [0..<n])[k := NdArray (ncols (var ! k)) (rows (var ! k) @ rows (new ! k))]
      = map (?f (Suc k)) [0..<n]"
    using k by (intro nth_equalityI) (auto simp: nth_list_update less_Suc_eq)
  have step: "vstack_variable (Matrices new) k (Matrices (map (?f k) [0..<n]))
      = Inr (Matrices (map (?f (Suc k)) [0..<n]))"
    using k assms(2,4) upd by (simp add: vstack_variable_def vstack_def)
  show ?case using IH step by (simp add: for_loop_append)
qed

lemma stitch_body:
  assumes "length var = n" and "length new = n" and "\<forall>j<n. ncols (new ! j) = ncols (var ! j)"
  shows "(if Matrices new = Matrices [] then Inr (Matrices var)
          else for_loop [0..<n] (vstack_variable (Matrices new)) (Matrices var))
       = Inr (Matrices (map (\<lambda>j. NdArray (ncols (var ! j)) (rows (var ! j) @ rows (new ! j))) [0..<n]))"
proof (cases "n = 0")
  case True
  then show ?thesis using assms by simp
next
  case False
  then have "new \<noteq> []" using assms(2) by auto
  then show ?thesis using vstack_loop [OF assms(1,2) order_refl assms(3)] by simp
qed

lemma stitch_loop:
  assumes "length var = n"
    and "\<forall>ms \<in> set mss. length ms = n \<and> (\<forall>j<n. ncols (ms ! j) = ncols (var ! j))"
  shows "for_loop (map Matrices mss)
           (\<lambda>new var. if new = Matrices [] then Inr var
                       else for_loop [0..<n] (vstack_variable new) var)
           (Matrices var)
       = Inr (Matrices (map (\<lambda>j. NdArray (ncols (var ! j))
                                   (rows (var ! j) @ concat (map (\<lambda>ms. rows (ms ! j)) mss))) [0..<n]))"
  using assms
proof (induction mss arbitrary: var)
  case Nil
  have "map (\<lambda>j. NdArray (ncols (var ! j)) (rows (var ! j))) [0..<n] = var"
    using Nil.prems(1) by (intro nth_equalityI) simp_all
  then show ?case by simp
next
  case (Cons new mss)
  let ?var' = "map (\<lambda>j. NdArray (ncols (var ! j)) (rows (var ! j) @ rows (new ! j))) [0..<n]"
  have new: "length new = n" "\<forall>j<n. ncols (new ! j) = ncols (var ! j)"
    using Cons.prems(2) by auto
  have body: "(if Matrices new = Matrices [] then Inr (Matrices var)
          else for_loop [0..<n] (vstack_variable (Matrices new)) (Matrices var)) = Inr (Matrices ?var')"
    by (rule stitch_body [OF Cons.prems(1) new])
  have len': "length ?var' = n" by simp
  have cols': "\<forall>ms \<in> set mss. length ms = n \<and> (\<forall>j<n. ncols (ms ! j) = ncols (?var' ! j))"
    using Cons.prems(2) by simp
  have "map (\<lambda>j. NdArray (ncols (?var' ! j)) (rows (?var' ! j) @ concat (map (\<lambda>ms. rows (ms ! j)) mss))) [0..<n]
      = map (\<lambda>j. NdArray (ncols (var ! j)) (rows (var ! j) @ concat (map (\<lambda>ms. rows (ms ! j)) (new # mss)))) [0..<n]"
    by simp
  then show ?case using Cons.IH [OF len' cols'] body by simp
qed

lemma per_file_call:
  assumes "per_file fs lats lons variables datearray interpolate p = Inr r"
  shows "\<exists>date_start date_end checked.
           date_check_vec datearray date_start date_end = Inr checked
         \<and> snd (extract_dataset fs lats lons p variables (TimeArray checked) interpolate) = Inr r"
proof -
  from assms obtain ds date_start date_end checked opened
    where "date_check_vec datearray date_start date_end = Inr checked"
      and "extract_dataset fs lats lons p variables (TimeArray checked) interpolate = (opened, Inr r)"
    by (auto simp: per_file_def extract_file_def split: option.splits sum.splits prod.splits)
  then have "date_check_vec datearray date_start date_end = Inr checked
         \<and> snd (extract_dataset fs lats lons p variables (TimeArray checked) interpolate) = Inr r"
    by simp
  then show ?thesis by blast
qed

lemma per_file_shape:
  assumes "per_file fs lats lons variables datearray interpolate p = Inr (Matrices ms)"
  shows "length ms = length variables
       \<and> (\<forall>j<length variables. ncols (ms ! j) = (if interpolate then length lats else 1)
              \<and> (interpolate \<longrightarrow> nrows (ms ! j) = nrows datearray))"
proof -
  from per_file_call [OF assms] obtain date_start date_end checked
    where c: "date_check_vec datearray date_start date_end = Inr checked"
      and x: "snd (extract_dataset fs lats lons p variables (TimeArray checked) interpolate) = Inr (Matrices ms)"
    by blast
  have "nrows checked = nrows datearray"
    using date_check_vec_nrows [OF c] by (simp add: nrows_def)
  with extract_dataset_shape [OF x] show ?thesis by simp
qed

lemma per_file_not_empty:
  "per_file fs lats lons variables datearray interpolate p \<noteq> Inr (Matrices [])"
  using per_file_call [of fs lats lons variables datearray interpolate p "Matrices []"]
    array_request_not_empty by blast

lemma snd_extract_dataset_list:
  "snd (extract_dataset_list fs lats lons paths variables datearray interpolate)
     = (case snd (extract_files fs lats lons variables datearray interpolate paths ([], [])) of
          Inl e \<Rightarrow> Inl e
        | Inr var_list \<Rightarrow> stitch var_list (length variables))"
  by (cases "extract_files fs lats lons variables datearray interpolate paths ([], [])")
     (auto simp: extract_dataset_list_def split: sum.splits)

text \<open>
  C1. Stitching is to give, per variable, the rows of the per-file matrices in file order,
  a file whose window-restricted request is empty being skipped, so that the row count is
  the sum of the rows each file contributes. The restricted request that
  \<open>extract_dataset_list\<close> hands to \<open>extract_dataset\<close> is always an array of the full
  shape of the request, with NaT outside the file's window, never the empty list; so the
  per-file call never returns the empty list and neither skip test ever holds.
  The two files below cover two hours of one day and one hour of the next, two stations.
  First input: four requested times per station, two in each file's window. The call on
  the first file has two valid times for four rows and ends in a value error, and so does
  the stitcher. Second input: two requested times per station, both in the first file's
  window. The first file gives its two rows; the restricted request of the second file is
  all NaT, the file is not skipped, and interpolating onto no timestamp ends in a value
  error, and so does the stitcher.
\<close>

theorem stitch_not_by_contributing_rows:
  "date_check_vec (NdArray 2 [[Some 0, Some 0], [Some 3600, Some 3600],
                              [Some 86400, Some 86400], [Some 90000, Some 90000]])
      (0 - halfhour) (7200 + halfhour)
     = Inr (NdArray 2 [[Some 0, Some 0], [Some 3600, Some 3600], [None, None], [None, None]])
   \<and> per_file example_fs [1, 2] [5, 6] [''TQV'']
        (NdArray 2 [[Some 0, Some 0], [Some 3600, Some 3600],
                    [Some 86400, Some 86400], [Some 90000, Some 90000]]) True ''a''
       = Inl ValueError
   \<and> extract_dataset_list example_fs [1, 2] [5, 6] [''a'', ''b''] [''TQV'']
        (NdArray 2 [[Some 0, Some 0], [Some 3600, Some 3600],
                    [Some 86400, Some 86400], [Some 90000, Some 90000]]) True
       = ([''a'', ''a''], Inl ValueError)
   \<and> per_file example_fs [1, 2] [5, 6] [''TQV'']
        (NdArray 2 [[Some 0, Some 0], [Some 3600, Some 3600]]) True ''a''
       = Inr (Matrices [NdArray 2 [[Val 1, Val 2], [Val 3601, Val 3602]]])
   \<and> date_check_vec (NdArray 2 [[Some 0, Some 0], [Some 3600, Some 3600]])
        (86400 - halfhour) (90000 + halfhour)
       = Inr (NdArray 2 [[None, None], [None, None]])
   \<and> per_file example_fs [1, 2] [5, 6] [''TQV'']
        (NdArray 2 [[Some 0, Some 0], [Some 3600, Some 3600]]) True ''b''
       = Inl ValueError
   \<and> extract_dataset_list example_fs [1, 2] [5, 6] [''a'', ''b''] [''TQV'']
        (NdArray 2 [[Some 0, Some 0], [Some 3600, Some 3600]]) True
       = ([''a'', ''a'', ''b'', ''b''], Inl ValueError)"
  by (simp add: eval_defs)

lemma vstack_sentinel_var:
  "0 < n \<Longrightarrow> for_loop [0..<n] (vstack_variable new) (Sentinel k) = Inl TypeError"
  by (simp add: upt_conv_Cons vstack_variable_def)

lemma vstack_sentinel_new:
  "0 < n \<Longrightarrow> length var = n \<Longrightarrow> for_loop [0..<n] (vstack_variable (Sentinel k)) (Matrices var) = Inl TypeError"
  by (simp add: upt_conv_Cons vstack_variable_def)

lemma all_matrices:
  "\<forall>r \<in> set xs. \<exists>ms. r = Matrices ms \<and> P ms \<Longrightarrow> \<exists>mss. xs = map Matrices mss \<and> (\<forall>ms \<in> set mss. P ms)"
proof (induction xs)
  case Nil
  then show ?case by simp
next
  case (Cons x xs)
  then obtain ms mss where "x = Matrices ms" "P ms" "xs = map Matrices mss" "\<forall>ms \<in> set mss. P ms"
    by auto
  then show ?case by (intro exI [of _ "ms # mss"]) simp
qed

lemma stitch_with_sentinel:
  assumes "0 < n" and "Sentinel k \<in> set var_list" and "Matrices [] \<notin> set var_list"
    and "\<forall>ms. Matrices ms \<in> set var_list \<longrightarrow> length ms = n \<and> (\<forall>j<n. ncols (ms ! j) = c)"
  shows "stitch var_list n = (if length var_list = 1 then Inr (Sentinel k) else Inl TypeError)"
proof -
  let ?body = "\<lambda>new var. if new = Matrices [] then Inr var else for_loop [0..<n] (vstack_variable new) var"
  have "\<exists>x \<in> set var_list. \<exists>k. x = Sentinel k" using assms(2) by blast
  from split_list_first_prop [OF this] obtain pre x post k'
    where vl: "var_list = pre @ x # post" and x: "x = Sentinel k'"
      and pre: "\<forall>y \<in> set pre. \<not> (\<exists>k. y = Sentinel k)"
    by blast
  have "\<forall>r \<in> set pre. \<exists>ms. r = Matrices ms \<and> (length ms = n \<and> (\<forall>j<n. ncols (ms ! j) = c))"
  proof
    fix r assume r: "r \<in> set pre"
    have "\<not> (\<exists>k. r = Sentinel k)" using pre r by blast
    then obtain ms where "r = Matrices ms" by (cases r) auto
    then show "\<exists>ms. r = Matrices ms \<and> (length ms = n \<and> (\<forall>j<n. ncols (ms ! j) = c))"
      using assms(4) r vl by auto
  qed
  from all_matrices [OF this] obtain mss where mss: "pre = map Matrices mss"
    and shape: "\<forall>ms \<in> set mss. length ms = n \<and> (\<forall>j<n. ncols (ms ! j) = c)"
    by blast
  show ?thesis
  proof (cases mss)
    case Nil
    show ?thesis
    proof (cases post)
      case Nil
      with \<open>mss = []\<close> mss vl x assms(2) show ?thesis by (simp add: stitch_def)
    next
      case (Cons y ys)
      have "y \<noteq> Matrices []" using assms(3) vl Cons by auto
      then have "?body y (Sentinel k') = Inl TypeError"
        using vstack_sentinel_var [OF assms(1)] by simp
      then show ?thesis using \<open>mss = []\<close> mss vl x Cons by (simp add: stitch_def)
    qed
  next
    case (Cons var rest)
    have 1: "length var = n" using shape Cons by simp
    have 2: "\<forall>ms \<in> set rest. length ms = n \<and> (\<forall>j<n. ncols (ms ! j) = ncols (var ! j))"
      using shape Cons by simp
    let ?var' = "map (\<lambda>j. NdArray (ncols (var ! j)) (rows (var ! j) @ concat (map (\<lambda>ms. rows (ms ! j)) rest))) [0..<n]"
    have "for_loop (map Matrices rest @ Sentinel k' # post) ?body (Matrices var)
        = for_loop (Sentinel k' # post) ?body (Matrices ?var')"
      using stitch_loop [OF 1 2] by (simp add: for_loop_append)
    also have "\<dots> = Inl TypeError"
      using vstack_sentinel_new [OF assms(1), of ?var' k'] by simp
    finally show ?thesis using Cons mss vl x by (simp add: stitch_def)
  qed
qed

text \<open>
  C10, as the code has it. The claim says that a per-file failure sentinel is never
  propagated as such by \<open>extract_dataset_list\<close>. With a single file that lacks a
  requested variable, the per-file call returns -1 and \<open>extract_dataset_list\<close> returns
  that same -1.
\<close>

theorem sentinel_returned_counterexample:
  "per_file example_fs [1, 2] [5, 6] [''TQV'', ''XX'']
      (NdArray 2 [[Some 0, Some 3600], [Some 3600, Some 7200]]) True ''a'' = Inr (Sentinel (- 1))
   \<and> snd (extract_dataset_list example_fs [1, 2] [5, 6] [''a''] [''TQV'', ''XX'']
             (NdArray 2 [[Some 0, Some 3600], [Some 3600, Some 7200]]) True) = Inr (Sentinel (- 1))"
  by (simp add: eval_defs)

text \<open>
  C10, amended. Let every per-file call return a value and let one of them be a failure
  sentinel, with at least one variable requested. The skip test compares with the empty
  list only, so the sentinel is appended to \<open>var_list\<close> and reaches the concatenation
  step; nothing tests for it. When it is the only accumulated result it is the value
  returned; when two or more results are accumulated the concatenation raises a type
  error.
\<close>

theorem sentinel_not_screened:
  assumes "map (per_file fs lats lons variables datearray interpolate) dataset_path_list = map Inr results"
    and "Sentinel k \<in> set results"
    and "var_list = filter (\<lambda>r. r \<noteq> Matrices []) results"
    and "variables \<noteq> []"
  shows "snd (extract_files fs lats lons variables datearray interpolate dataset_path_list ([], []))
           = Inr var_list
       \<and> Sentinel k \<in> set var_list
       \<and> snd (extract_dataset_list fs lats lons dataset_path_list variables datearray interpolate)
           = stitch var_list (length variables)
       \<and> stitch var_list (length variables)
           = (if length var_list = 1 then Inr (Sentinel k) else Inl TypeError)"
proof -
  have vl: "snd (extract_files fs lats lons variables datearray interpolate dataset_path_list ([], []))
           = Inr var_list"
    using extract_files_results [OF assms(1), of "[]" "[]"] assms(3) by simp
  have mem: "Sentinel k \<in> set var_list" using assms(2,3) by simp
  have run: "snd (extract_dataset_list fs lats lons dataset_path_list variables datearray interpolate)
           = stitch var_list (length variables)"
    using vl by (simp add: snd_extract_dataset_list)
  have shape: "\<forall>ms. Matrices ms \<in> set var_list \<longrightarrow>
      length ms = length variables \<and> (\<forall>j<length variables. ncols (ms ! j) = (if interpolate then length lats else 1))"
  proof (intro allI impI)
    fix ms assume "Matrices ms \<in> set var_list"
    then have "Matrices ms \<in> set results" using assms(3) by simp
    then obtain i where i: "i < length results" "results ! i = Matrices ms"
      by (auto simp: in_set_conv_nth)
    have "length dataset_path_list = length results"
      using arg_cong [OF assms(1), of length] by simp
    then have "per_file fs lats lons variables datearray interpolate (dataset_path_list ! i) = Inr (Matrices ms)"
      using i arg_cong [OF assms(1), of "\<lambda>xs. xs ! i"] by simp
    from per_file_shape [OF this]
    show "length ms = length variables \<and> (\<forall>j<length variables. ncols (ms ! j) = (if interpolate then length lats else 1))"
      by simp
  qed
  have "Matrices [] \<notin> set var_list" using assms(3) by simp
  from stitch_with_sentinel [OF _ mem this shape] assms(4) vl mem run show ?thesis by simp
qed

theorem sentinel_not_screened_witness:
  "map (per_file example_fs [1, 2] [5, 6] [''TQV'']
          (NdArray 2 [[Some 0, Some 86400], [Some 1800, Some 90000]]) False) [''a'', ''b'']
     = map Inr [Sentinel (- 2), Matrices [NdArray 1 [[Val 86401], [Val 86402]]]]
   \<and> Sentinel (- 2) \<in> set [Sentinel (- 2), Matrices [NdArray 1 [[Val 86401], [Val 86402]]]]
   \<and> [''TQV''] \<noteq> []
   \<and> snd (extract_dataset_list example_fs [1, 2] [5, 6] [''a'', ''b''] [''TQV'']
             (NdArray 2 [[Some 0, Some 86400], [Some 1800, Some 90000]]) False) = Inl TypeError
   \<and> map (per_file example_fs [1, 2] [5, 6] [''TQV'']
          (NdArray 2 [[Some 0, Some 86400], [Some 1800, Some 90000]]) False) [''a'']
     = map Inr [Sentinel (- 2)]
   \<and> snd (extract_dataset_list example_fs [1, 2] [5, 6] [''a''] [''TQV'']
             (NdArray 2 [[Some 0, Some 86400], [Some 1800, Some 90000]]) False) = Inr (Sentinel (- 2))"
proof -
  let ?D = "NdArray 2 [[Some 0, Some 86400], [Some 1800, Some (90000::int)]]"
  let ?B = "NdArray 1 [[Val 86401], [Val 86402]]"
  have a: "per_file example_fs [1, 2] [5, 6] [''TQV''] ?D False ''a'' = Inr (Sentinel (- 2))"
    by (simp add: eval_defs)
  have b: "per_file example_fs [1, 2] [5, 6] [''TQV''] ?D False ''b'' = Inr (Matrices [?B])"
    by (simp add: eval_defs)
  have two: "map (per_file example_fs [1, 2] [5, 6] [''TQV''] ?D False) [''a'', ''b'']
     = map Inr [Sentinel (- 2), Matrices [?B]]"
    using a b by simp
  have one: "map (per_file example_fs [1, 2] [5, 6] [''TQV''] ?D False) [''a''] = map Inr [Sentinel (- 2)]"
    using a by simp
  have r2: "snd (extract_dataset_list example_fs [1, 2] [5, 6] [''a'', ''b''] [''TQV''] ?D False) = Inl TypeError"
    using sentinel_not_screened [OF two, of "- 2" "[Sentinel (- 2), Matrices [?B]]"] by simp
  have r1: "snd (extract_dataset_list example_fs [1, 2] [5, 6] [''a''] [''TQV''] ?D False) = Inr (Sentinel (- 2))"
    using sentinel_not_screened [OF one, of "- 2" "[Sentinel (- 2)]"] by simp
  from two one r1 r2 show ?thesis by simp
qed

end
